theory Spec2Isabelle
  imports
    Main
    "HOL-Library.Char_ord"
    "HOL-Library.List_Lexorder"
    "HOL-Library.Multiset"
begin

section \<open>Strings and the Go runtime\<close>

text \<open>
  A Go \<^verbatim>\<open>string\<close> is a sequence of bytes; it is modelled as a \<^typ>\<open>string\<close>, a list of
  8-bit characters, so \<^const>\<open>length\<close> is Go's \<^verbatim>\<open>len\<close>. The character classes of
  \<^verbatim>\<open>cli.go\<close> only single out ASCII characters, every byte of a multi-byte UTF-8
  sequence lies outside all of them, and therefore scanning bytes splits a string at
  the same places as scanning runes does.
\<close>

definition dquote :: char where
  "dquote = CHR 0x22"

definition backslash :: char where
  "backslash = CHR 0x5C"

definition tab :: char where
  "tab = CHR 0x09"

definition newline :: char where
  "newline = CHR 0x0A"

text \<open>
  Indexing and slicing a Go string panic when out of range. The panic is a value of the
  model: every function that indexes or slices returns \<open>panic + result\<close>.
\<close>

datatype panic = IndexOutOfRange | SliceOutOfRange

text \<open>\<^verbatim>\<open>s[i]\<close>\<close>

definition index :: "'a list \<Rightarrow> nat \<Rightarrow> panic + 'a" where
  "index s i = (if i < length s then Inr (s ! i) else Inl IndexOutOfRange)"

text \<open>\<^verbatim>\<open>s[i:]\<close>\<close>

definition slice_from :: "'a list \<Rightarrow> nat \<Rightarrow> panic + 'a list" where
  "slice_from s i = (if i \<le> length s then Inr (drop i s) else Inl SliceOutOfRange)"

subsection \<open>The package \<^verbatim>\<open>strings\<close>\<close>

text \<open>\<^verbatim>\<open>strings.HasPrefix(s, prefix)\<close>\<close>

definition HasPrefix :: "string \<Rightarrow> string \<Rightarrow> bool" where
  "HasPrefix s pre = (length pre \<le> length s \<and> take (length pre) s = pre)"

text \<open>\<^verbatim>\<open>strings.TrimPrefix(s, prefix)\<close>: \<open>s\<close> without the prefix, or \<open>s\<close> itself when it
  does not start with it.\<close>

definition TrimPrefix :: "string \<Rightarrow> string \<Rightarrow> string" where
  "TrimPrefix s pre = (if HasPrefix s pre then drop (length pre) s else s)"

text \<open>\<^verbatim>\<open>a[i] = v\<close>\<close>

definition store :: "'a list \<Rightarrow> nat \<Rightarrow> 'a \<Rightarrow> panic + 'a list" where
  "store a i v = (if i < length a then Inr (a[i := v]) else Inl IndexOutOfRange)"

text \<open>
  \<^verbatim>\<open>strings.FieldsFunc(s, f)\<close> splits \<open>s\<close> at every run of characters satisfying \<open>f\<close>
  and returns the pieces between them. The library that \<^verbatim>\<open>cli.go\<close> was written
  against (Go before 1.10) goes over the string twice, calling \<open>f\<close> on every character
  in each pass: the first pass counts the fields and allocates an array of that many
  strings, the second pass stores the fields in it. The closure that
  \<^verbatim>\<open>parseDoubleQuotedIdentifier\<close> passes writes a captured variable, so \<open>f\<close> is a
  function of the captured state and the character, returning the verdict and the new
  state; the second pass starts in the state in which the first pass ended. When the
  second pass then finds more fields than the first pass counted, the store into the
  array is out of range and the program panics.

  In the second pass the index \<^verbatim>\<open>fieldStart\<close> is modelled as the field being
  collected: \<open>None\<close> while \<^verbatim>\<open>fieldStart\<close> is \<open>-1\<close>, and otherwise the characters from
  \<^verbatim>\<open>fieldStart\<close> to the current position.
\<close>

fun FieldsFunc_count ::
  "('s \<Rightarrow> char \<Rightarrow> bool \<times> 's) \<Rightarrow> 's \<Rightarrow> bool \<Rightarrow> nat \<Rightarrow> string \<Rightarrow> nat \<times> 's" where
  "FieldsFunc_count f st inField n [] = (n, st)"
| "FieldsFunc_count f st inField n (ch # rest) =
     (case f st ch of
        (b, st') \<Rightarrow>
          (let wasInField = inField;
               inField = \<not> b;
               n = (if inField \<and> \<not> wasInField then n + 1 else n)
           in FieldsFunc_count f st' inField n rest))"

fun FieldsFunc_fill ::
  "('s \<Rightarrow> char \<Rightarrow> bool \<times> 's) \<Rightarrow> 's \<Rightarrow> string list \<Rightarrow> nat \<Rightarrow> string option \<Rightarrow> string \<Rightarrow>
   panic + string list" where
  "FieldsFunc_fill f st a na cur [] =
     (case cur of Some fld \<Rightarrow> store a na fld | None \<Rightarrow> Inr a)"
| "FieldsFunc_fill f st a na cur (ch # rest) =
     (case f st ch of
        (True, st') \<Rightarrow>
          (case cur of
             Some fld \<Rightarrow>
               (case store a na fld of
                  Inl p \<Rightarrow> Inl p
                | Inr a' \<Rightarrow> FieldsFunc_fill f st' a' (na + 1) None rest)
           | None \<Rightarrow> FieldsFunc_fill f st' a na None rest)
      | (False, st') \<Rightarrow>
          (case cur of
             Some fld \<Rightarrow> FieldsFunc_fill f st' a na (Some (fld @ [ch])) rest
           | None \<Rightarrow> FieldsFunc_fill f st' a na (Some [ch]) rest))"

definition FieldsFunc ::
  "string \<Rightarrow> ('s \<Rightarrow> char \<Rightarrow> bool \<times> 's) \<Rightarrow> 's \<Rightarrow> panic + string list" where
  "FieldsFunc s f st0 =
     (case FieldsFunc_count f st0 False 0 s of
        (n, st1) \<Rightarrow> FieldsFunc_fill f st1 (replicate n []) 0 None s)"

text \<open>
  The fields that one scan from left to right finds, entered in state \<open>st\<close> with the
  field \<open>cur\<close> being collected. This is what both passes compute when they run in the
  same state (and what the one-pass \<^verbatim>\<open>FieldsFunc\<close> of later libraries returns); the
  properties of \<^const>\<open>FieldsFunc\<close> are stated with it.
\<close>

fun fields_from ::
  "('s \<Rightarrow> char \<Rightarrow> bool \<times> 's) \<Rightarrow> 's \<Rightarrow> string option \<Rightarrow> string \<Rightarrow> string list" where
  "fields_from f st cur [] = (case cur of Some fld \<Rightarrow> [fld] | None \<Rightarrow> [])"
| "fields_from f st cur (ch # rest) =
     (case f st ch of
        (True, st') \<Rightarrow>
          (case cur of
             Some fld \<Rightarrow> fld # fields_from f st' None rest
           | None \<Rightarrow> fields_from f st' None rest)
      | (False, st') \<Rightarrow>
          (case cur of
             Some fld \<Rightarrow> fields_from f st' (Some (fld @ [ch])) rest
           | None \<Rightarrow> fields_from f st' (Some [ch]) rest))"

text \<open>A function that captures nothing, as a closure over the unit state.\<close>

definition pure_func :: "(char \<Rightarrow> bool) \<Rightarrow> unit \<Rightarrow> char \<Rightarrow> bool \<times> unit" where
  "pure_func p u ch = (p ch, u)"

section \<open>The identifier parser\<close>

definition isWhitespace :: "char \<Rightarrow> bool" where
  "isWhitespace ch = (ch = CHR '' '' \<or> ch = tab \<or> ch = newline)"

definition isLetter :: "char \<Rightarrow> bool" where
  "isLetter ch = ((ch \<ge> CHR ''a'' \<and> ch \<le> CHR ''z'') \<or> (ch \<ge> CHR ''A'' \<and> ch \<le> CHR ''Z''))"

definition isDigit :: "char \<Rightarrow> bool" where
  "isDigit ch = (ch \<ge> CHR ''0'' \<and> ch \<le> CHR ''9'')"

definition isIdentFirstChar :: "char \<Rightarrow> bool" where
  "isIdentFirstChar ch = (isLetter ch \<or> ch = CHR ''_'')"

definition isNotIdentChar :: "char \<Rightarrow> bool" where
  "isNotIdentChar ch = (\<not> (isLetter ch \<or> isDigit ch \<or> ch = CHR ''_''))"

definition parseUnquotedIdentifier :: "string \<Rightarrow> panic + (string \<times> string)" where
  "parseUnquotedIdentifier stmt =
     (case FieldsFunc stmt (pure_func isNotIdentChar) () of
        Inl p \<Rightarrow> Inl p
      | Inr fields \<Rightarrow>
          if length fields > 0 then
            (case index fields 0 of
               Inl p \<Rightarrow> Inl p
             | Inr f0 \<Rightarrow> Inr (f0, TrimPrefix stmt f0))
          else Inr ([], stmt))"

text \<open>
  The closure of \<^verbatim>\<open>parseDoubleQuotedIdentifier\<close>; its state is the captured variable
  \<^verbatim>\<open>escapeNext\<close>. A backslash sets it, a double quote seen while it is set clears it,
  and no other character changes it.
\<close>

definition quoteFunc :: "bool \<Rightarrow> char \<Rightarrow> bool \<times> bool" where
  "quoteFunc escapeNext ch =
     (if ch = backslash then (False, True)
      else if ch = dquote then
        (if \<not> escapeNext then (True, escapeNext) else (False, False))
      else (False, escapeNext))"

definition parseDoubleQuotedIdentifier :: "string \<Rightarrow> panic + (string \<times> string)" where
  "parseDoubleQuotedIdentifier stmt =
     (case FieldsFunc stmt quoteFunc False of
        Inl p \<Rightarrow> Inl p
      | Inr fields \<Rightarrow>
          if length fields > 0 then
            (case index fields 0 of
               Inl p \<Rightarrow> Inl p
             | Inr f0 \<Rightarrow> Inr (f0, TrimPrefix stmt ([dquote] @ f0 @ [dquote])))
          else Inr ([], stmt))"

function parseNextIdentifier :: "string \<Rightarrow> panic + (string \<times> string)" where
  "parseNextIdentifier stmt =
     (if length stmt > 0 then
        (case index stmt 0 of
           Inl p \<Rightarrow> Inl p
         | Inr c0 \<Rightarrow>
             if isWhitespace c0 then
               (case slice_from stmt 1 of
                  Inl p \<Rightarrow> Inl p
                | Inr stmt' \<Rightarrow> parseNextIdentifier stmt')
             else if isIdentFirstChar c0 then parseUnquotedIdentifier stmt
             else if c0 = dquote then parseDoubleQuotedIdentifier stmt
             else Inr ([], stmt))
      else Inr ([], stmt))"
  by pat_completeness auto
termination
  by (relation "measure length") (auto simp: slice_from_def split: if_splits)

declare parseNextIdentifier.simps [simp del]

text \<open>
  The fields of \<^verbatim>\<open>CommandLine\<close> that the parser and the formatter read or write.
\<close>

record CommandLine =
  Database :: string
  RetentionPolicy :: string
  Pretty :: bool
  Format :: string

text \<open>
  \<^verbatim>\<open>parseInto\<close> updates the receiver and prints to the standard output; the model
  returns the updated receiver, the text printed, and the returned string.
\<close>

definition parseInto :: "CommandLine \<Rightarrow> string \<Rightarrow> panic + (CommandLine \<times> string \<times> string)" where
  "parseInto c stmt0 =
     (case parseNextIdentifier stmt0 of
        Inl p \<Rightarrow> Inl p
      | Inr (ident, stmt) \<Rightarrow>
          (case
             (if HasPrefix stmt ''.'' then
                (let c = c\<lparr>Database := ident\<rparr>;
                     out = ''Using database '' @ Database c @ [newline]
                 in case slice_from stmt 1 of
                      Inl p \<Rightarrow> Inl p
                    | Inr stmt' \<Rightarrow>
                        (case parseNextIdentifier stmt' of
                           Inl p \<Rightarrow> Inl p
                         | Inr (ident, stmt) \<Rightarrow> Inr (c, out, ident, stmt)))
              else Inr (c, [], ident, stmt))
           of
             Inl p \<Rightarrow> Inl p
           | Inr (c, out, ident, stmt) \<Rightarrow>
               if HasPrefix stmt '' '' then
                 (let c = c\<lparr>RetentionPolicy := ident\<rparr>;
                      out = out @ ''Using retention policy '' @ RetentionPolicy c @ [newline]
                  in case slice_from stmt 1 of
                       Inl p \<Rightarrow> Inl p
                     | Inr stmt' \<Rightarrow> Inr (c, out, stmt'))
               else Inr (c, out, stmt)))"

text \<open>
  What the closure of \<^verbatim>\<open>parseDoubleQuotedIdentifier\<close> does on a stretch of text:
  \<open>quote_free st cs\<close> says that, entered with \<^verbatim>\<open>escapeNext = st\<close>, it reports no
  character of \<open>cs\<close> as a closing quote, and \<open>quote_state st cs\<close> is the value of
  \<^verbatim>\<open>escapeNext\<close> after \<open>cs\<close>.
\<close>

fun quote_state :: "bool \<Rightarrow> string \<Rightarrow> bool" where
  "quote_state st [] = st"
| "quote_state st (ch # cs) = quote_state (snd (quoteFunc st ch)) cs"

fun quote_free :: "bool \<Rightarrow> string \<Rightarrow> bool" where
  "quote_free st [] = True"
| "quote_free st (ch # cs) = (\<not> fst (quoteFunc st ch) \<and> quote_free (snd (quoteFunc st ch)) cs)"

text \<open>
  Three descriptions of a text that do not refer to the closure. In the first,
  backslashes and double quotes occur only as the pair backslash, double quote: every
  double quote is escaped, and nothing else is. In the second, every double quote comes
  immediately after a backslash (the flag says whether the character before the text is
  a backslash). The third says that a backslash comes after the last double quote of
  the text, or anywhere in a text without double quote.
\<close>

fun quotes_escaped :: "bool \<Rightarrow> string \<Rightarrow> bool" where
  "quotes_escaped after_backslash [] = True"
| "quotes_escaped after_backslash (ch # cs) =
     ((if ch = dquote then after_backslash else True) \<and> quotes_escaped (ch = backslash) cs)"

definition ends_escaped :: "string \<Rightarrow> bool" where
  "ends_escaped s = (backslash \<in> set (takeWhile (\<lambda>ch. ch \<noteq> dquote) (rev s)))"

fun escaped_quotes_only :: "string \<Rightarrow> bool" where
  "escaped_quotes_only [] = True"
| "escaped_quotes_only (ch # cs) =
     (if ch = backslash then
        (case cs of [] \<Rightarrow> False | d # ds \<Rightarrow> d = dquote \<and> escaped_quotes_only ds)
      else ch \<noteq> dquote \<and> escaped_quotes_only cs)"

section \<open>The result formatter\<close>

subsection \<open>Library functions\<close>

text \<open>\<^verbatim>\<open>strings.Join(elems, sep)\<close>\<close>

fun Join :: "string list \<Rightarrow> string \<Rightarrow> string" where
  "Join [] sep = []"
| "Join [e] sep = e"
| "Join (e # es) sep = e @ sep @ Join es sep"

text \<open>\<^verbatim>\<open>strings.Repeat(s, count)\<close>\<close>

definition Repeat :: "string \<Rightarrow> nat \<Rightarrow> string" where
  "Repeat s n = concat (replicate n s)"

text \<open>\<^verbatim>\<open>strings.Split(s, sep)\<close> for a separator of one byte, which is how
  \<^verbatim>\<open>writeCSV\<close> calls it.\<close>

fun Split_loop :: "char \<Rightarrow> string \<Rightarrow> string \<Rightarrow> string list" where
  "Split_loop sep cur [] = [cur]"
| "Split_loop sep cur (ch # rest) =
     (if ch = sep then cur # Split_loop sep [] rest else Split_loop sep (cur @ [ch]) rest)"

definition Split :: "string \<Rightarrow> char \<Rightarrow> string list" where
  "Split s sep = Split_loop sep [] s"

text \<open>\<^verbatim>\<open>sort.Strings\<close> sorts in increasing order; Go compares strings byte by byte,
  which is the lexicographic order on \<^typ>\<open>string\<close>.\<close>

definition sort_Strings :: "string list \<Rightarrow> string list" where
  "sort_Strings a = sort a"

text \<open>The decimal digits of a number, as \<^verbatim>\<open>%d\<close> prints them: the library reads
  each digit off a table.\<close>

definition digit :: "nat \<Rightarrow> char" where
  "digit d = ''0123456789'' ! d"

function FormatUint :: "nat \<Rightarrow> string" where
  "FormatUint n = (if n < 10 then [digit n] else FormatUint (n div 10) @ [digit (n mod 10)])"
  by pat_completeness auto
termination
  by (relation "measure id") auto

declare FormatUint.simps [simp del]

definition Sprintf_d :: "int \<Rightarrow> string" where
  "Sprintf_d i = (if i < 0 then CHR ''-'' # FormatUint (nat (- i)) else FormatUint (nat i))"

text \<open>Reading a string of decimal digits back as a number.\<close>

definition decimal_value :: "string \<Rightarrow> nat" where
  "decimal_value ds = foldl (\<lambda>acc ch. 10 * acc + (of_char ch - of_char (CHR ''0''))) 0 ds"

subsection \<open>The data model\<close>

text \<open>
  A value of a row is a Go \<^verbatim>\<open>interface{}\<close>. The cases that \<^verbatim>\<open>interfaceToString\<close>
  tells apart are constructors: nil, a boolean, an integer of any of the integer types
  (with its mathematical value), a floating-point number, a string, and a value of any
  other type. Floating-point numbers and values of other types are kept opaque, as a
  type parameter; their \<^verbatim>\<open>%v\<close> text is a parameter of the formatter.
\<close>

datatype 'v iface = VNil | VBool bool | VInt int | VFloat 'v | VString string | VOther 'v

text \<open>
  Modelled from the spec: the types \<^verbatim>\<open>Response\<close>, \<^verbatim>\<open>Result\<close> and the series type of the
  package \<^verbatim>\<open>client\<close>, which are declared outside \<^verbatim>\<open>cli.go\<close>. The tags of a series are
  a Go map, and \<^verbatim>\<open>range\<close> visits the entries of a map in an order that is not
  specified; \<open>Tags\<close> lists the entries in the order in which the loop visits them.
\<close>

record 'v series =
  Name :: string
  Tags :: "(string \<times> string) list"
  Columns :: "string list"
  Values :: "'v iface list list"

record 'v result =
  Series :: "'v series list"
  Err :: "string option"

record 'v response =
  Results :: "'v result list"
  RespErr :: "string option"

subsection \<open>Formatting\<close>

definition interfaceToString :: "('v \<Rightarrow> string) \<Rightarrow> 'v iface \<Rightarrow> string" where
  "interfaceToString Sprintf_v v =
     (case v of
        VNil \<Rightarrow> []
      | VBool b \<Rightarrow> (if b then ''true'' else ''false'')
      | VInt t \<Rightarrow> Sprintf_d t
      | VFloat t \<Rightarrow> Sprintf_v t
      | VString t \<Rightarrow> t
      | VOther t \<Rightarrow> Sprintf_v t)"

text \<open>The loop that gathers the tags: append \<^verbatim>\<open>k=v\<close>, then sort, for every entry.\<close>

fun gatherTags :: "string list \<Rightarrow> (string \<times> string) list \<Rightarrow> string list" where
  "gatherTags tags [] = tags"
| "gatherTags tags ((k, v) # rest) = gatherTags (sort_Strings (tags @ [k @ ''='' @ v])) rest"

text \<open>The loop over the values of a series, appending one row of text for each.\<close>

fun formatValues ::
  "('v \<Rightarrow> string) \<Rightarrow> CommandLine \<Rightarrow> string \<Rightarrow> string \<Rightarrow> string list \<Rightarrow> string list \<Rightarrow>
   'v iface list list \<Rightarrow> string list" where
  "formatValues Sprintf_v c separator name tags rows [] = rows"
| "formatValues Sprintf_v c separator name tags rows (v # rest) =
     (let values = [];
          values =
            (if Format c = ''csv'' then
               (let values = (if name \<noteq> [] then values @ [name] else values)
                in if length tags > 0 then values @ [Join tags '',''] else values)
             else values);
          values = values @ map (interfaceToString Sprintf_v) v
      in formatValues Sprintf_v c separator name tags (rows @ [Join values separator]) rest)"

text \<open>The body of the loop of \<^verbatim>\<open>formatResults\<close>: the rows after series number \<open>i\<close>.\<close>

definition formatSeries ::
  "('v \<Rightarrow> string) \<Rightarrow> CommandLine \<Rightarrow> string \<Rightarrow> string list \<Rightarrow> nat \<Rightarrow> 'v series \<Rightarrow> string list" where
  "formatSeries Sprintf_v c separator rows i row =
     (let tags = gatherTags [] (Tags row);
          columnNames = [];
          columnNames =
            (if Format c = ''csv'' then
               (let columnNames = (if length tags > 0 then [''tags''] @ columnNames else columnNames)
                in if Name row \<noteq> [] then [''name''] @ columnNames else columnNames)
             else columnNames);
          columnNames = columnNames @ Columns row;
          rows = (if i > 0 \<and> Format c = ''column'' then rows @ [[]] else rows);
          rows =
            (if Format c = ''column'' then
               (let rows =
                      (if Name row \<noteq> [] then
                         (let n = ''name: '' @ Name row;
                              rows = rows @ [n]
                          in if length tags = 0 then rows @ [Repeat ''-'' (length n)] else rows)
                       else rows)
                in if length tags > 0 then rows @ [''tags: '' @ Join tags '', ''] else rows)
             else rows);
          rows = rows @ [Join columnNames separator];
          rows =
            (if Format c = ''column'' \<and> length tags > 0 then
               rows @ [Join (map (\<lambda>columnName. Repeat ''-'' (length columnName)) columnNames) separator]
             else rows);
          rows = formatValues Sprintf_v c separator (Name row) tags rows (Values row)
      in if Format c = ''column'' then rows @ [[]] else rows)"

fun formatResults_loop ::
  "('v \<Rightarrow> string) \<Rightarrow> CommandLine \<Rightarrow> string \<Rightarrow> string list \<Rightarrow> nat \<Rightarrow> 'v series list \<Rightarrow> string list" where
  "formatResults_loop Sprintf_v c separator rows i [] = rows"
| "formatResults_loop Sprintf_v c separator rows i (row # rest) =
     formatResults_loop Sprintf_v c separator (formatSeries Sprintf_v c separator rows i row) (Suc i) rest"

definition formatResults ::
  "('v \<Rightarrow> string) \<Rightarrow> CommandLine \<Rightarrow> 'v result \<Rightarrow> string \<Rightarrow> string list" where
  "formatResults Sprintf_v c result separator =
     formatResults_loop Sprintf_v c separator [] 0 (Series result)"

subsection \<open>Writing a response\<close>

text \<open>
  The encoders and writers of the Go library are parameters: \<^verbatim>\<open>json.Marshal\<close> and
  \<^verbatim>\<open>json.MarshalIndent\<close> (returning the document, or \<open>Inl\<close> the text of the error),
  the text that a \<^verbatim>\<open>csv.Writer\<close> produces for one record, the text that a
  \<^verbatim>\<open>tabwriter.Writer\<close> emits for the text written to it, and the verbs \<^verbatim>\<open>%q\<close> and
  \<^verbatim>\<open>%v\<close> of \<^verbatim>\<open>fmt\<close>.
\<close>

record 'v library =
  json_Marshal :: "'v response \<Rightarrow> string + string"
  json_MarshalIndent :: "'v response \<Rightarrow> string \<Rightarrow> string \<Rightarrow> string + string"
  csv_Write :: "string list \<Rightarrow> string"
  tabwriter_Flush :: "string \<Rightarrow> string"
  fmt_q :: "string \<Rightarrow> string"
  fmt_v :: "'v \<Rightarrow> string"

text \<open>The text that \<^verbatim>\<open>writeJSON\<close> writes to \<open>w\<close>.\<close>

definition writeJSON :: "'v library \<Rightarrow> CommandLine \<Rightarrow> 'v response \<Rightarrow> string" where
  "writeJSON lib c response =
     (case (if Pretty c then json_MarshalIndent lib response [] ''    ''
            else json_Marshal lib response) of
        Inl err \<Rightarrow> ''Unable to parse json: '' @ err @ [newline]
      | Inr data \<Rightarrow> data @ [newline])"

text \<open>The text that \<^verbatim>\<open>writeCSV\<close> writes to \<open>w\<close>: one record for every row of every
  result, its fields the pieces of the row between tabs.\<close>

definition writeCSV :: "'v library \<Rightarrow> CommandLine \<Rightarrow> 'v response \<Rightarrow> string" where
  "writeCSV lib c response =
     concat (map (\<lambda>result.
       concat (map (\<lambda>r. csv_Write lib (Split r tab))
                   (formatResults (fmt_v lib) c result [tab])))
       (Results response))"

text \<open>The text that \<^verbatim>\<open>writeColumns\<close> writes to the standard output (it does not use
  \<open>w\<close>): for every result, a tabwriter is fed the rows, one per line, and flushed.\<close>

definition writeColumns :: "'v library \<Rightarrow> CommandLine \<Rightarrow> 'v response \<Rightarrow> string" where
  "writeColumns lib c response =
     concat (map (\<lambda>result.
       tabwriter_Flush lib
         (concat (map (\<lambda>r. r @ [newline]) (formatResults (fmt_v lib) c result [tab]))))
       (Results response))"

text \<open>\<^verbatim>\<open>FormatResponse\<close>: the text written to \<open>w\<close>, and the text written to the
  standard output.\<close>

definition FormatResponse :: "'v library \<Rightarrow> CommandLine \<Rightarrow> 'v response \<Rightarrow> string \<times> string" where
  "FormatResponse lib c response =
     (if Format c = ''json'' then (writeJSON lib c response, [])
      else if Format c = ''csv'' then (writeCSV lib c response, [])
      else if Format c = ''column'' then ([], writeColumns lib c response)
      else (''Unknown output format '' @ fmt_q lib (Format c) @ ''.'' @ [newline], []))"

section \<open>Properties of the identifier parser\<close>

subsection \<open>The two passes of \<^verbatim>\<open>FieldsFunc\<close>\<close>

text \<open>
  The first pass counts the fields of one scan, and the second pass stores the fields
  of its own scan. When the second pass starts in the state in which the first one
  started, it finds what was counted, nothing is stored out of range, and the result
  is the fields of one scan. This is so for a function that captures nothing, and for
  the closure of \<^verbatim>\<open>parseDoubleQuotedIdentifier\<close> when \<^verbatim>\<open>escapeNext\<close> is clear at the
  end of the text, that is, when no backslash comes after the last double quote.
\<close>

lemma FieldsFunc_count_fields_both:
  "fst (FieldsFunc_count f st False n s) = n + length (fields_from f st None s) \<and>
   fst (FieldsFunc_count f st True n s) + 1 = n + length (fields_from f st (Some fld) s)"
proof (induction s arbitrary: st n fld)
  case Nil
  show ?case by simp
next
  case (Cons ch rest)
  obtain b st' where q: "f st ch = (b, st')" by (cases "f st ch")
  show ?case
  proof (cases b)
    case True
    with q Cons.IH [of st' n] show ?thesis by simp
  next
    case False
    with q Cons.IH [of st' "n + 1" "[ch]"] Cons.IH [of st' n "fld @ [ch]"] show ?thesis by simp
  qed
qed

lemma FieldsFunc_count_fields:
  "fst (FieldsFunc_count f st False n s) = n + length (fields_from f st None s)"
  using FieldsFunc_count_fields_both [of f st n s] by simp

lemma take_Suc_update: "na < length a \<Longrightarrow> take (Suc na) (a[na := x]) = take na a @ [x]"
  by (simp add: take_Suc_conv_app_nth)

lemma FieldsFunc_fill_fields:
  "na + length (fields_from f st cur s) \<le> length a \<Longrightarrow>
   FieldsFunc_fill f st a na cur s =
     Inr (take na a @ fields_from f st cur s @ drop (na + length (fields_from f st cur s)) a)"
proof (induction s arbitrary: st a na cur)
  case Nil
  show ?case
  proof (cases cur)
    case None
    then show ?thesis by simp
  next
    case (Some fld)
    with Nil have "na < length a" by simp
    with Some show ?thesis by (simp add: store_def upd_conv_take_nth_drop)
  qed
next
  case (Cons ch rest)
  obtain b st' where q: "f st ch = (b, st')" by (cases "f st ch")
  show ?case
  proof (cases b)
    case False
    show ?thesis
    proof (cases cur)
      case None
      with q False Cons.prems Cons.IH [of na st' "Some [ch]" a] show ?thesis by simp
    next
      case (Some fld)
      with q False Cons.prems Cons.IH [of na st' "Some (fld @ [ch])" a] show ?thesis by simp
    qed
  next
    case True
    show ?thesis
    proof (cases cur)
      case None
      with q True Cons.prems Cons.IH [of na st' None a] show ?thesis by simp
    next
      case (Some fld)
      let ?F = "fields_from f st' None rest"
      from q True Some Cons.prems have len: "Suc na + length ?F \<le> length a" by simp
      then have lt: "na < length a" by simp
      from len have "Suc na + length ?F \<le> length (a[na := fld])" by simp
      from Cons.IH [OF this]
      have "FieldsFunc_fill f st' (a[na := fld]) (Suc na) None rest =
          Inr (take (Suc na) (a[na := fld]) @ ?F @ drop (Suc na + length ?F) (a[na := fld]))" .
      also have "take (Suc na) (a[na := fld]) = take na a @ [fld]"
        using lt by (rule take_Suc_update)
      also have "drop (Suc na + length ?F) (a[na := fld]) = drop (Suc na + length ?F) a"
        by (rule drop_update_cancel) simp
      finally show ?thesis
        using q True Some lt by (simp add: store_def)
    qed
  qed
qed

lemma FieldsFunc_same_state:
  assumes "snd (FieldsFunc_count f st0 False 0 s) = st0"
  shows "FieldsFunc s f st0 = Inr (fields_from f st0 None s)"
proof -
  obtain n st1 where c: "FieldsFunc_count f st0 False 0 s = (n, st1)"
    by (cases "FieldsFunc_count f st0 False 0 s")
  with assms have st1: "st1 = st0" by simp
  from c FieldsFunc_count_fields [of f st0 0 s]
  have n: "n = length (fields_from f st0 None s)" by simp
  have "FieldsFunc_fill f st0 (replicate n []) 0 None s =
      Inr (take 0 (replicate n []) @ fields_from f st0 None s @
           drop (0 + length (fields_from f st0 None s)) (replicate n []))"
    by (rule FieldsFunc_fill_fields) (simp add: n)
  with c st1 n show ?thesis by (simp add: FieldsFunc_def)
qed


lemma FieldsFunc_count_quote_state:
  "snd (FieldsFunc_count quoteFunc st inField n s) = quote_state st s"
proof (induction s arbitrary: st inField n)
  case Nil
  show ?case by simp
next
  case (Cons ch rest)
  obtain b st' where q: "quoteFunc st ch = (b, st')" by (cases "quoteFunc st ch")
  with Cons.IH [of st'] show ?case by (simp add: Let_def)
qed

lemma FieldsFunc_quote:
  "quote_state False s = False \<Longrightarrow>
   FieldsFunc s quoteFunc False = Inr (fields_from quoteFunc False None s)"
  by (rule FieldsFunc_same_state) (simp add: FieldsFunc_count_quote_state)

lemma quote_state_append: "quote_state st (s @ t) = quote_state (quote_state st s) t"
  by (induction s arbitrary: st) simp_all

lemma quote_state_ends:
  "quote_state st s = (ends_escaped s \<or> (st \<and> dquote \<notin> set s))"
proof (induction s rule: rev_induct)
  case Nil
  show ?case by (simp add: ends_escaped_def)
next
  case (snoc ch s)
  have ne: "backslash \<noteq> dquote" by (simp add: backslash_def dquote_def)
  show ?case
  proof (cases "ch = backslash")
    case True
    with ne show ?thesis
      by (simp add: quote_state_append quoteFunc_def ends_escaped_def)
  next
    case nb: False
    show ?thesis
    proof (cases "ch = dquote")
      case True
      with nb show ?thesis
        by (simp add: quote_state_append quoteFunc_def ends_escaped_def)
    next
      case False
      with nb snoc show ?thesis
        by (auto simp: quote_state_append quoteFunc_def ends_escaped_def)
    qed
  qed
qed

lemma quote_state_False: "quote_state False s = ends_escaped s"
  by (simp add: quote_state_ends)

lemma quotes_escaped_free:
  "quotes_escaped b cs \<Longrightarrow> (b \<longrightarrow> st) \<Longrightarrow> quote_free st cs"
proof (induction cs arbitrary: b st)
  case Nil
  show ?case by simp
next
  case (Cons ch cs)
  have ne: "backslash \<noteq> dquote" by (simp add: backslash_def dquote_def)
  from Cons.prems have rest: "quotes_escaped (ch = backslash) cs" by simp
  show ?case
  proof (cases "ch = backslash")
    case True
    with Cons.IH [OF rest, of True] show ?thesis
      by (simp add: quoteFunc_def)
  next
    case nb: False
    show ?thesis
    proof (cases "ch = dquote")
      case True
      with Cons.prems have "st" by simp
      with True nb Cons.IH [OF rest, of False] show ?thesis
        by (simp add: quoteFunc_def)
    next
      case False
      with nb Cons.IH [OF rest, of st] show ?thesis
        by (simp add: quoteFunc_def)
    qed
  qed
qed



subsection \<open>Skipping whitespace\<close>


lemma parseNextIdentifier_whitespace:
  "isWhitespace ch \<Longrightarrow> parseNextIdentifier (ch # s) = parseNextIdentifier s"
  by (subst parseNextIdentifier.simps) (simp add: index_def slice_from_def)

lemma parseNextIdentifier_skip:
  "list_all isWhitespace ws \<Longrightarrow> parseNextIdentifier (ws @ s) = parseNextIdentifier s"
  by (induction ws) (simp_all add: parseNextIdentifier_whitespace)



subsection \<open>The three kinds of input\<close>





lemma quoteFunc_dquote: "quoteFunc False dquote = (True, False)"
  by (simp add: quoteFunc_def dquote_def backslash_def)

lemma quote_state_dquote: "quote_state False (dquote # s) = ends_escaped s"
  by (simp add: quoteFunc_dquote quote_state_False)


lemma dquote_not_special: "\<not> isWhitespace dquote" "\<not> isIdentFirstChar dquote"
  by (simp_all add: isWhitespace_def isIdentFirstChar_def isLetter_def dquote_def tab_def newline_def)

lemma parseNextIdentifier_dquote:
  "parseNextIdentifier (dquote # s) = parseDoubleQuotedIdentifier (dquote # s)"
  by (subst parseNextIdentifier.simps) (simp add: index_def dquote_not_special)

lemma fields_from_quote_free:
  "quote_free st c \<Longrightarrow>
   fields_from quoteFunc st (Some acc) (c @ r) =
   fields_from quoteFunc (quote_state st c) (Some (acc @ c)) r"
proof (induction c arbitrary: st acc)
  case Nil
  then show ?case by simp
next
  case (Cons ch cs)
  obtain b st' where q: "quoteFunc st ch = (b, st')" by (cases "quoteFunc st ch")
  with Cons.prems have "\<not> b" and "quote_free st' cs" by simp_all
  with Cons.IH [of st' "acc @ [ch]"] q show ?case by simp
qed

lemma fields_from_quote_free_start:
  assumes "quote_free st c" and "c \<noteq> []"
  shows "fields_from quoteFunc st None (c @ r) =
         fields_from quoteFunc (quote_state st c) (Some c) r"
proof (cases c)
  case Nil
  with assms show ?thesis by simp
next
  case (Cons ch cs)
  obtain b st' where q: "quoteFunc st ch = (b, st')" by (cases "quoteFunc st ch")
  with assms Cons have nb: "\<not> b" and f: "quote_free st' cs" by simp_all
  from fields_from_quote_free [OF f, of "[ch]" r] q nb Cons show ?thesis by simp
qed

lemma escaped_quotes_only_scan:
  "escaped_quotes_only c \<Longrightarrow> quote_free False c \<and> quote_state False c = False"
proof (induction c rule: escaped_quotes_only.induct)
  case 1
  then show ?case by simp
next
  case (2 ch cs)
  show ?case
  proof (cases "ch = backslash")
    case True
    with "2.prems" obtain ds where cs: "cs = dquote # ds" and e: "escaped_quotes_only ds"
      by (auto split: list.splits)
    from "2.IH"(1) [OF True cs] e have "quote_free False ds \<and> quote_state False ds = False"
      by simp
    with True cs show ?thesis
      by (simp add: quoteFunc_def dquote_def backslash_def)
  next
    case False
    with "2.prems" have nd: "ch \<noteq> dquote" and e: "escaped_quotes_only cs" by simp_all
    from "2.IH"(2) [OF False] e have "quote_free False cs \<and> quote_state False cs = False"
      by simp
    with False nd show ?thesis by (simp add: quoteFunc_def)
  qed
qed

lemma parseDoubleQuotedIdentifier_closed:
  assumes "quote_free False c" and "quote_state False c = False" and "c \<noteq> []"
    and "\<not> ends_escaped r"
  shows "parseDoubleQuotedIdentifier (dquote # c @ dquote # r) = Inr (c, r)"
proof -
  from assms(2,4) have st: "quote_state False (dquote # c @ dquote # r) = False"
    by (simp add: quoteFunc_dquote quote_state_append quote_state_False)
  have "fields_from quoteFunc False None (dquote # c @ dquote # r) =
        c # fields_from quoteFunc False None r"
    using assms(1-3) fields_from_quote_free_start [of False c "dquote # r"]
    by (simp add: quoteFunc_dquote)
  with FieldsFunc_quote [OF st] show ?thesis
    by (simp add: parseDoubleQuotedIdentifier_def index_def TrimPrefix_def HasPrefix_def)
qed

lemma parseDoubleQuotedIdentifier_open:
  assumes "quote_free False c" and "\<not> ends_escaped c" and "c \<noteq> []"
  shows "parseDoubleQuotedIdentifier (dquote # c) = Inr (c, dquote # c)"
proof -
  from assms(2) have st: "quote_state False (dquote # c) = False"
    by (simp add: quoteFunc_dquote quote_state_False)
  have "fields_from quoteFunc False None (dquote # c) = [c]"
    using assms(1,3) fields_from_quote_free_start [of False c "[]"]
    by (simp add: quoteFunc_dquote)
  with FieldsFunc_quote [OF st] show ?thesis
    by (simp add: parseDoubleQuotedIdentifier_def index_def TrimPrefix_def HasPrefix_def)
qed

subsection \<open>Totality\<close>




subsection \<open>Double-quoted identifiers\<close>

text \<open>
  Four inputs outside the well-formed ones. A backslash before an ordinary character
  leaves \<^verbatim>\<open>escapeNext\<close> set, so the next double quote does not close the identifier.
  After an empty pair of quotes the first field is the text that follows them. A
  backslash after the last double quote leaves \<^verbatim>\<open>escapeNext\<close> set for the second
  pass, which then takes the opening double quote for an escaped one and makes it part
  of the identifier.
\<close>

lemma parseNextIdentifier_backslash_before_letter:
  "parseNextIdentifier ([dquote, CHR ''a'', backslash, CHR ''b'', dquote] @ '' x'') =
     Inr ([CHR ''a'', backslash, CHR ''b'', dquote] @ '' x'',
          [dquote, CHR ''a'', backslash, CHR ''b'', dquote] @ '' x'')"
  by code_simp

lemma parseNextIdentifier_empty_quotes:
  "parseNextIdentifier ([dquote, dquote] @ '' x'') = Inr ('' x'', [dquote, dquote] @ '' x'')"
  by code_simp

lemma parseNextIdentifier_backslash_after_quotes:
  "parseNextIdentifier ([dquote] @ ''db'' @ [dquote] @ '' a'' @ [backslash] @ ''b'') =
     Inr ([dquote] @ ''db'', [dquote] @ ''db'' @ [dquote] @ '' a'' @ [backslash] @ ''b'')"
  by code_simp

lemma parseNextIdentifier_backslash_at_end:
  "parseNextIdentifier ([dquote] @ ''abc'' @ [backslash]) =
     Inr ([dquote] @ ''abc'' @ [backslash], [dquote] @ ''abc'' @ [backslash])"
  by code_simp

text \<open>
  C1 (as stated). On the input space, double quote, \<open>a\<close>, backslash, double quote,
  \<open>b\<close>, double quote, space, \<open>rest\<close> the identifier returned is not \<open>a"b\<close>: the
  identifier is a piece of the input, so the backslash is still in it.
\<close>

theorem parseNextIdentifier_escape_counterexample:
  "parseNextIdentifier
     ([CHR '' '', dquote, CHR ''a'', backslash, dquote, CHR ''b'', dquote] @ '' rest'') =
     Inr ([CHR ''a'', backslash, dquote, CHR ''b''], '' rest'') \<and>
   [CHR ''a'', backslash, dquote, CHR ''b''] \<noteq> [CHR ''a'', dquote, CHR ''b'']"
  by code_simp

text \<open>
  C1 (amended). On that input \<^verbatim>\<open>parseNextIdentifier\<close> returns the four characters
  \<open>a\<close>, backslash, double quote, \<open>b\<close> (the quotes stripped, the backslash kept) and
  the remainder \<open> rest\<close> with its leading space. More generally, for an input made of
  whitespace, a double quote, a non-empty content in which every backslash is followed
  at once by a double quote and every double quote is preceded at once by a backslash,
  a closing double quote, and a rest in which no backslash comes after the last double
  quote: the identifier is the content as it stands between the quotes, and the
  remainder is the rest.
\<close>

theorem parseNextIdentifier_quoted:
  "parseNextIdentifier
     ([CHR '' '', dquote, CHR ''a'', backslash, dquote, CHR ''b'', dquote] @ '' rest'') =
     Inr ([CHR ''a'', backslash, dquote, CHR ''b''], '' rest'') \<and>
   (list_all isWhitespace ws \<and> content \<noteq> [] \<and> escaped_quotes_only content \<and>
    \<not> ends_escaped rest \<longrightarrow>
      parseNextIdentifier (ws @ [dquote] @ content @ [dquote] @ rest) = Inr (content, rest))"
proof -
  have general: "parseNextIdentifier (ws @ [dquote] @ content @ [dquote] @ rest) = Inr (content, rest)"
    if "list_all isWhitespace ws" "content \<noteq> []" "escaped_quotes_only content" "\<not> ends_escaped rest"
    for ws content rest
  proof -
    from that(3) have "quote_free False content" "quote_state False content = False"
      using escaped_quotes_only_scan by blast+
    with that(2,4)
    have "parseDoubleQuotedIdentifier (dquote # content @ dquote # rest) = Inr (content, rest)"
      by (simp add: parseDoubleQuotedIdentifier_closed)
    with that(1) show ?thesis
      by (simp add: parseNextIdentifier_skip parseNextIdentifier_dquote)
  qed
  have "list_all isWhitespace '' ''" by (simp add: isWhitespace_def)
  moreover have "escaped_quotes_only [CHR ''a'', backslash, dquote, CHR ''b'']"
    by (simp add: backslash_def dquote_def)
  moreover have "\<not> ends_escaped '' rest''"
    by (simp add: ends_escaped_def backslash_def dquote_def)
  ultimately have "parseNextIdentifier
     ('' '' @ [dquote] @ [CHR ''a'', backslash, dquote, CHR ''b''] @ [dquote] @ '' rest'') =
     Inr ([CHR ''a'', backslash, dquote, CHR ''b''], '' rest'')"
    by (intro general) simp_all
  with general show ?thesis by simp
qed

theorem parseNextIdentifier_quoted_witness:
  "list_all isWhitespace [tab, CHR '' ''] \<and> ''db'' \<noteq> [] \<and> escaped_quotes_only ''db'' \<and>
   \<not> ends_escaped ''.rp'' \<and>
   parseNextIdentifier ([tab, CHR '' ''] @ [dquote] @ ''db'' @ [dquote] @ ''.rp'') = Inr (''db'', ''.rp'')"
proof -
  have "list_all isWhitespace [tab, CHR '' '']" by (simp add: isWhitespace_def)
  moreover have "escaped_quotes_only ''db''" by (simp add: backslash_def dquote_def)
  moreover have "\<not> ends_escaped ''.rp''" by (simp add: ends_escaped_def backslash_def dquote_def)
  ultimately show ?thesis
    using parseNextIdentifier_quoted [of "[tab, CHR '' '']" "''db''" "''.rp''"] by simp
qed

text \<open>
  C10 (as stated). The claim says that an input that starts with a double quote and has
  no closing one gives a non-empty identifier, and that identifier and remainder
  together are not the input. On the input of one double quote alone the identifier is
  empty, and identifier and remainder together are the input.
\<close>

theorem parseNextIdentifier_lone_quote_counterexample:
  "parseNextIdentifier [dquote] = Inr ([], [dquote]) \<and> [] @ [dquote] = [dquote]"
  by code_simp

text \<open>
  C10 (amended). When the input, after leading whitespace, is a double quote followed by
  a non-empty content in which every double quote comes immediately after a backslash
  and no backslash comes after the last double quote (as the input double quote,
  \<open>abc\<close>), the identifier is that content and the remainder is the whole input
  without its leading whitespace, opening quote included: the double quote, the content
  and a double quote are not a prefix of it, so nothing is stripped, and identifier and
  remainder together are not that input.
\<close>

theorem parseNextIdentifier_unclosed_quote:
  "list_all isWhitespace ws \<and> content \<noteq> [] \<and> quotes_escaped False content \<and>
   \<not> ends_escaped content \<longrightarrow>
     parseNextIdentifier (ws @ [dquote] @ content) = Inr (content, [dquote] @ content) \<and>
     [dquote] @ content = dropWhile isWhitespace (ws @ [dquote] @ content) \<and>
     \<not> HasPrefix ([dquote] @ content) ([dquote] @ content @ [dquote]) \<and>
     content @ ([dquote] @ content) \<noteq> [dquote] @ content"
proof (intro impI, elim conjE)
  assume ws: "list_all isWhitespace ws" and ne: "content \<noteq> []"
    and esc: "quotes_escaped False content" and pend: "\<not> ends_escaped content"
  from esc have "quote_free False content"
    by (rule quotes_escaped_free) simp
  with pend ne
  have "parseDoubleQuotedIdentifier (dquote # content) = Inr (content, dquote # content)"
    by (simp add: parseDoubleQuotedIdentifier_open)
  with ws have 1: "parseNextIdentifier (ws @ [dquote] @ content) = Inr (content, [dquote] @ content)"
    by (simp add: parseNextIdentifier_skip parseNextIdentifier_dquote)
  from ws have 2: "[dquote] @ content = dropWhile isWhitespace (ws @ [dquote] @ content)"
    by (simp add: dropWhile_append3 dquote_not_special list_all_iff)
  have 3: "\<not> HasPrefix ([dquote] @ content) ([dquote] @ content @ [dquote])"
    by (simp add: HasPrefix_def)
  from ne have 4: "content @ ([dquote] @ content) \<noteq> [dquote] @ content"
    by simp
  from 1 2 3 4 show "parseNextIdentifier (ws @ [dquote] @ content) = Inr (content, [dquote] @ content) \<and>
     [dquote] @ content = dropWhile isWhitespace (ws @ [dquote] @ content) \<and>
     \<not> HasPrefix ([dquote] @ content) ([dquote] @ content @ [dquote]) \<and>
     content @ ([dquote] @ content) \<noteq> [dquote] @ content"
    by blast
qed

theorem parseNextIdentifier_unclosed_quote_witness:
  "list_all isWhitespace [] \<and> ''abc'' \<noteq> [] \<and> quotes_escaped False ''abc'' \<and>
   \<not> ends_escaped ''abc'' \<and>
   parseNextIdentifier ([dquote] @ ''abc'') = Inr (''abc'', [dquote] @ ''abc'') \<and>
   ''abc'' @ ([dquote] @ ''abc'') \<noteq> [dquote] @ ''abc'' \<and>
   quotes_escaped False [CHR ''a'', backslash, dquote, CHR ''b''] \<and>
   \<not> ends_escaped [CHR ''a'', backslash, dquote, CHR ''b''] \<and>
   parseNextIdentifier ([CHR '' ''] @ [dquote] @ [CHR ''a'', backslash, dquote, CHR ''b'']) =
     Inr ([CHR ''a'', backslash, dquote, CHR ''b''], [dquote] @ [CHR ''a'', backslash, dquote, CHR ''b''])"
proof -
  have a: "quotes_escaped False ''abc''" "\<not> ends_escaped ''abc''"
    by (simp_all add: ends_escaped_def backslash_def dquote_def)
  have b: "quotes_escaped False [CHR ''a'', backslash, dquote, CHR ''b'']"
    "\<not> ends_escaped [CHR ''a'', backslash, dquote, CHR ''b'']"
    by (simp_all add: ends_escaped_def backslash_def dquote_def)
  have w: "list_all isWhitespace [CHR '' '']"
    by (simp add: isWhitespace_def)
  from a parseNextIdentifier_unclosed_quote [of "[]" "''abc''"]
  have 1: "parseNextIdentifier ([dquote] @ ''abc'') = Inr (''abc'', [dquote] @ ''abc'')"
    by simp
  from b w parseNextIdentifier_unclosed_quote [of "[CHR '' '']" "[CHR ''a'', backslash, dquote, CHR ''b'']"]
  have 2: "parseNextIdentifier ([CHR '' ''] @ [dquote] @ [CHR ''a'', backslash, dquote, CHR ''b'']) =
     Inr ([CHR ''a'', backslash, dquote, CHR ''b''], [dquote] @ [CHR ''a'', backslash, dquote, CHR ''b''])"
    by simp
  from a b 1 2 show ?thesis by (simp add: dquote_def backslash_def)
qed

subsection \<open>The prefix of \<^verbatim>\<open>INSERT INTO\<close>\<close>

lemma parseInto_dot_space:
  assumes "parseNextIdentifier stmt = Inr (db, ''.'' @ rest)"
    and "parseNextIdentifier rest = Inr (rp, '' '' @ line)"
  shows "parseInto c stmt =
         Inr (c\<lparr>Database := db, RetentionPolicy := rp\<rparr>,
              ''Using database '' @ db @ [newline] @ ''Using retention policy '' @ rp @ [newline],
              line)"
  using assms by (simp add: parseInto_def HasPrefix_def slice_from_def)

lemma parseInto_dot_only:
  assumes "parseNextIdentifier stmt = Inr (db, ''.'' @ rest)"
    and "parseNextIdentifier rest = Inr (ident, rest')"
    and "\<not> HasPrefix rest' '' ''"
  shows "parseInto c stmt = Inr (c\<lparr>Database := db\<rparr>, ''Using database '' @ db @ [newline], rest')"
  using assms by (simp add: parseInto_def HasPrefix_def slice_from_def)

lemma parseInto_space:
  assumes "parseNextIdentifier stmt = Inr (rp, '' '' @ line)"
  shows "parseInto c stmt =
         Inr (c\<lparr>RetentionPolicy := rp\<rparr>, ''Using retention policy '' @ rp @ [newline], line)"
  using assms by (simp add: parseInto_def HasPrefix_def slice_from_def)

lemma parseNextIdentifier_mydb:
  "parseNextIdentifier ''mydb.rp value'' = Inr (''mydb'', ''.'' @ ''rp value'')"
  by code_simp

lemma parseNextIdentifier_rp:
  "parseNextIdentifier ''rp value'' = Inr (''rp'', '' '' @ ''value'')"
  by code_simp

text \<open>
  C7. \<^verbatim>\<open>parseInto\<close> parses an identifier. If what remains starts with a dot, the
  identifier becomes the database and a second identifier is parsed after the dot; it
  becomes the retention policy when a space follows it, and the line is what follows
  that space; when no space follows it, the retention policy is not changed. If what
  remains after the first identifier starts with a space, that identifier becomes the
  retention policy and the database keeps its value. So \<open>mydb.rp value\<close> gives the
  database \<open>mydb\<close>, the retention policy \<open>rp\<close> and the line \<open>value\<close>, and
  \<open>rp value\<close> gives the retention policy \<open>rp\<close> and leaves the database alone.
\<close>

theorem parseInto_database_and_policy:
  "(parseNextIdentifier stmt = Inr (db, ''.'' @ rest) \<and>
    parseNextIdentifier rest = Inr (rp, '' '' @ line) \<longrightarrow>
      parseInto c stmt =
        Inr (c\<lparr>Database := db, RetentionPolicy := rp\<rparr>,
             ''Using database '' @ db @ [newline] @ ''Using retention policy '' @ rp @ [newline],
             line)) \<and>
   (parseNextIdentifier stmt = Inr (db, ''.'' @ rest) \<and>
    parseNextIdentifier rest = Inr (ident, rest') \<and> \<not> HasPrefix rest' '' '' \<longrightarrow>
      parseInto c stmt =
        Inr (c\<lparr>Database := db\<rparr>, ''Using database '' @ db @ [newline], rest')) \<and>
   (parseNextIdentifier stmt = Inr (rp, '' '' @ line) \<longrightarrow>
      parseInto c stmt =
        Inr (c\<lparr>RetentionPolicy := rp\<rparr>, ''Using retention policy '' @ rp @ [newline], line) \<and>
      Database (c\<lparr>RetentionPolicy := rp\<rparr>) = Database c) \<and>
   parseInto c ''mydb.rp value'' =
     Inr (c\<lparr>Database := ''mydb'', RetentionPolicy := ''rp''\<rparr>,
          ''Using database mydb'' @ [newline] @ ''Using retention policy rp'' @ [newline],
          ''value'') \<and>
   parseInto c ''rp value'' =
     Inr (c\<lparr>RetentionPolicy := ''rp''\<rparr>, ''Using retention policy rp'' @ [newline], ''value'')"
proof (intro conjI impI)
  show "parseInto c ''mydb.rp value'' =
     Inr (c\<lparr>Database := ''mydb'', RetentionPolicy := ''rp''\<rparr>,
          ''Using database mydb'' @ [newline] @ ''Using retention policy rp'' @ [newline],
          ''value'')"
    using parseInto_dot_space [OF parseNextIdentifier_mydb parseNextIdentifier_rp, of c] by simp
  show "parseInto c ''rp value'' =
     Inr (c\<lparr>RetentionPolicy := ''rp''\<rparr>, ''Using retention policy rp'' @ [newline], ''value'')"
    using parseInto_space [OF parseNextIdentifier_rp, of c] by simp
qed (simp_all add: parseInto_dot_space parseInto_dot_only parseInto_space)

theorem parseInto_database_and_policy_witness:
  "parseNextIdentifier ''mydb.rp value'' = Inr (''mydb'', ''.'' @ ''rp value'') \<and>
   parseNextIdentifier ''rp value'' = Inr (''rp'', '' '' @ ''value'') \<and>
   parseInto \<lparr>Database = ''old'', RetentionPolicy = ''autogen'', Pretty = False, Format = ''column''\<rparr>
       ''mydb.rp value'' =
     Inr (\<lparr>Database = ''mydb'', RetentionPolicy = ''rp'', Pretty = False, Format = ''column''\<rparr>,
          ''Using database mydb'' @ [newline] @ ''Using retention policy rp'' @ [newline],
          ''value'') \<and>
   parseInto \<lparr>Database = ''old'', RetentionPolicy = ''autogen'', Pretty = False, Format = ''column''\<rparr>
       ''rp value'' =
     Inr (\<lparr>Database = ''old'', RetentionPolicy = ''rp'', Pretty = False, Format = ''column''\<rparr>,
          ''Using retention policy rp'' @ [newline], ''value'') \<and>
   parseNextIdentifier ''mydb.rp'' = Inr (''mydb'', ''.'' @ ''rp'') \<and>
   parseNextIdentifier ''rp'' = Inr (''rp'', []) \<and> \<not> HasPrefix [] '' '' \<and>
   parseInto \<lparr>Database = ''old'', RetentionPolicy = ''autogen'', Pretty = False, Format = ''column''\<rparr>
       ''mydb.rp'' =
     Inr (\<lparr>Database = ''mydb'', RetentionPolicy = ''autogen'', Pretty = False, Format = ''column''\<rparr>,
          ''Using database mydb'' @ [newline], [])"
proof -
  let ?c = "\<lparr>Database = ''old'', RetentionPolicy = ''autogen'', Pretty = False, Format = ''column''\<rparr>"
  have 1: "parseNextIdentifier ''mydb.rp value'' = Inr (''mydb'', ''.'' @ ''rp value'')"
    by code_simp
  have 2: "parseNextIdentifier ''rp value'' = Inr (''rp'', '' '' @ ''value'')"
    by code_simp
  have 3: "parseNextIdentifier ''mydb.rp'' = Inr (''mydb'', ''.'' @ ''rp'')"
    by code_simp
  have 4: "parseNextIdentifier ''rp'' = Inr (''rp'', [])"
    by code_simp
  have 5: "\<not> HasPrefix [] '' ''"
    by (simp add: HasPrefix_def)
  from 1 2 3 4 5
    parseInto_database_and_policy [of "''mydb.rp value''" "''mydb''" "''rp value''" "''rp''" "''value''" ?c "''rp''" "[]"]
    parseInto_database_and_policy [of "''rp value''" "''mydb''" "''rp value''" "''rp''" "''value''" ?c "''rp''" "[]"]
    parseInto_database_and_policy [of "''mydb.rp''" "''mydb''" "''rp''" "''rp''" "''value''" ?c "''rp''" "[]"]
  show ?thesis by simp
qed

section \<open>Properties of the result formatter\<close>

subsection \<open>Scalars\<close>

lemma digit_cases:
  assumes "d < 10"
  shows "digit d \<in> set ''0123456789''"
  unfolding digit_def using assms by (intro nth_mem) simp

lemma FormatUint_digits: "set (FormatUint n) \<subseteq> set ''0123456789''"
proof (induction n rule: FormatUint.induct)
  case (1 n)
  show ?case
  proof (cases "n < 10")
    case True
    with digit_cases [of n] show ?thesis by (subst FormatUint.simps) simp
  next
    case False
    have "n mod 10 < 10" by simp
    from digit_cases [OF this] "1.IH" [OF False] False show ?thesis
      by (subst FormatUint.simps) simp
  qed
qed

lemma digit_value:
  assumes "d < 10"
  shows "of_char (digit d) - of_char (CHR ''0'') = d"
proof -
  from assms have "d = 0 \<or> d = 1 \<or> d = 2 \<or> d = 3 \<or> d = 4 \<or> d = 5 \<or> d = 6 \<or> d = 7 \<or> d = 8 \<or> d = 9"
    by arith
  then show ?thesis
    by (elim disjE) (simp_all add: digit_def)
qed

lemma decimal_value_snoc:
  "decimal_value (ds @ [ch]) = 10 * decimal_value ds + (of_char ch - of_char (CHR ''0''))"
  by (simp add: decimal_value_def)

lemma decimal_value_FormatUint: "decimal_value (FormatUint n) = n"
proof (induction n rule: FormatUint.induct)
  case (1 n)
  show ?case
  proof (cases "n < 10")
    case True
    then have "FormatUint n = [digit n]" by (subst FormatUint.simps) simp
    with True digit_value [of n] show ?thesis by (simp add: decimal_value_def)
  next
    case False
    then have "FormatUint n = FormatUint (n div 10) @ [digit (n mod 10)]"
      by (subst FormatUint.simps) simp
    with "1.IH" [OF False] digit_value [of "n mod 10"] show ?thesis
      by (simp add: decimal_value_snoc)
  qed
qed

lemma FormatUint_nonempty: "FormatUint n \<noteq> []"
  by (subst FormatUint.simps) simp

lemma FormatUint_small: "n < 10 \<Longrightarrow> FormatUint n = [digit n]"
  by (subst FormatUint.simps) simp

lemma FormatUint_42: "FormatUint 42 = ''42''"
  by (simp add: FormatUint.simps [of 42] FormatUint.simps [of 4] digit_def)

lemma FormatUint_7: "FormatUint 7 = ''7''"
  by (simp add: FormatUint.simps [of 7] digit_def)

lemma Sprintf_d_chars: "set (Sprintf_d i) \<subseteq> set ''-0123456789''"
proof (cases "i < 0")
  case True
  then have "set (Sprintf_d i) = insert (CHR ''-'') (set (FormatUint (nat (- i))))"
    by (simp add: Sprintf_d_def)
  also have "\<dots> \<subseteq> insert (CHR ''-'') (set ''0123456789'')"
    using FormatUint_digits [of "nat (- i)"] by (rule insert_mono)
  also have "\<dots> = set ''-0123456789''"
    by (simp only: list.simps)
  finally show ?thesis .
next
  case False
  then have "set (Sprintf_d i) = set (FormatUint (nat i))"
    by (simp add: Sprintf_d_def)
  also have "\<dots> \<subseteq> set ''0123456789''"
    by (rule FormatUint_digits)
  also have "\<dots> \<subseteq> set ''-0123456789''"
    by (simp only: list.simps) (rule subset_insertI)
  finally show ?thesis .
qed

lemma dot_not_decimal: "CHR ''.'' \<notin> set ''-0123456789''"
  by simp

lemma interfaceToString_VInt: "interfaceToString Sprintf_v (VInt i) = Sprintf_d i"
  by (simp add: interfaceToString_def)

text \<open>
  C5. \<^verbatim>\<open>interfaceToString\<close> turns nil into the empty string (not into the word
  \<open>null\<close>), the booleans into \<open>true\<close> and \<open>false\<close>, and an integer into its decimal
  representation: digits only, after a minus sign when it is negative, reading back as
  the integer, and therefore without a decimal point.
\<close>

theorem interfaceToString_scalars:
  "interfaceToString Sprintf_v VNil = [] \<and>
   interfaceToString Sprintf_v VNil \<noteq> ''null'' \<and>
   interfaceToString Sprintf_v (VBool True) = ''true'' \<and>
   interfaceToString Sprintf_v (VBool False) = ''false'' \<and>
   CHR ''.'' \<notin> set (interfaceToString Sprintf_v (VInt i)) \<and>
   set (interfaceToString Sprintf_v (VInt i)) \<subseteq> set ''-0123456789'' \<and>
   (0 \<le> i \<longrightarrow> int (decimal_value (interfaceToString Sprintf_v (VInt i))) = i) \<and>
   (i < 0 \<longrightarrow> (\<exists>ds. interfaceToString Sprintf_v (VInt i) = CHR ''-'' # ds \<and>
                     int (decimal_value ds) = - i))"
proof -
  have nil: "interfaceToString Sprintf_v VNil = []"
    and true: "interfaceToString Sprintf_v (VBool True) = ''true''"
    and false: "interfaceToString Sprintf_v (VBool False) = ''false''"
    by (simp_all add: interfaceToString_def)
  from nil have notnull: "interfaceToString Sprintf_v VNil \<noteq> ''null''"
    by simp
  have sub: "set (interfaceToString Sprintf_v (VInt i)) \<subseteq> set ''-0123456789''"
    unfolding interfaceToString_VInt by (rule Sprintf_d_chars)
  with dot_not_decimal have dot: "CHR ''.'' \<notin> set (interfaceToString Sprintf_v (VInt i))"
    by blast
  have pos: "0 \<le> i \<longrightarrow> int (decimal_value (interfaceToString Sprintf_v (VInt i))) = i"
    by (simp add: interfaceToString_VInt Sprintf_d_def decimal_value_FormatUint)
  have neg: "i < 0 \<longrightarrow> (\<exists>ds. interfaceToString Sprintf_v (VInt i) = CHR ''-'' # ds \<and>
                     int (decimal_value ds) = - i)"
    by (simp add: interfaceToString_VInt Sprintf_d_def decimal_value_FormatUint)
  from nil notnull true false sub dot pos neg show ?thesis
    by blast
qed

theorem interfaceToString_scalars_witness:
  "(0::int) \<le> 42 \<and> interfaceToString (\<lambda>u::unit. []) (VInt 42) = ''42'' \<and>
   int (decimal_value ''42'') = 42 \<and>
   (- 7 :: int) < 0 \<and> interfaceToString (\<lambda>u::unit. []) (VInt (- 7)) = ''-7'' \<and>
   int (decimal_value ''7'') = 7 \<and>
   CHR ''.'' \<notin> set (interfaceToString (\<lambda>u::unit. []) (VInt 42))"
proof -
  have 1: "interfaceToString (\<lambda>u::unit. []) (VInt 42) = ''42''"
    by (simp add: interfaceToString_def Sprintf_d_def FormatUint_42)
  have 2: "interfaceToString (\<lambda>u::unit. []) (VInt (- 7)) = ''-7''"
    by (simp add: interfaceToString_def Sprintf_d_def FormatUint_7)
  from interfaceToString_scalars [of "\<lambda>u::unit. []" 42]
  have 3: "int (decimal_value (interfaceToString (\<lambda>u::unit. []) (VInt 42))) = 42"
    and 4: "CHR ''.'' \<notin> set (interfaceToString (\<lambda>u::unit. []) (VInt 42))"
    by simp_all
  from interfaceToString_scalars [of "\<lambda>u::unit. []" "- 7"]
  have 5: "\<exists>ds. interfaceToString (\<lambda>u::unit. []) (VInt (- 7)) = CHR ''-'' # ds \<and> int (decimal_value ds) = 7"
    by simp
  from 1 2 3 4 5 show ?thesis by simp
qed

subsection \<open>The rows of a series\<close>

lemma gatherTags_sort:
  "sorted tags \<Longrightarrow> gatherTags tags kvs = sort (tags @ map (\<lambda>(k, v). k @ ''='' @ v) kvs)"
proof (induction kvs arbitrary: tags)
  case Nil
  then show ?case by (simp add: sorted_sort_id)
next
  case (Cons kv rest)
  obtain k v where kv: "kv = (k, v)" by (cases kv)
  let ?t = "k @ ''='' @ v"
  have "gatherTags tags (kv # rest) = gatherTags (sort (tags @ [?t])) rest"
    by (simp add: kv sort_Strings_def)
  also have "\<dots> = sort (sort (tags @ [?t]) @ map (\<lambda>(k, v). k @ ''='' @ v) rest)"
    by (rule Cons.IH) simp
  also have "\<dots> = sort (tags @ map (\<lambda>(k, v). k @ ''='' @ v) (kv # rest))"
    by (rule properties_for_sort) (simp_all add: kv)
  finally show ?case .
qed

lemma gatherTags_empty: "gatherTags [] kvs = sort (map (\<lambda>(k, v). k @ ''='' @ v) kvs)"
  using gatherTags_sort [of "[]" kvs] by simp


lemma gatherTags_Nil_iff: "gatherTags [] kvs = [] \<longleftrightarrow> kvs = []"
proof -
  have "gatherTags [] kvs = [] \<longleftrightarrow> length (gatherTags [] kvs) = 0"
    by simp
  also have "\<dots> \<longleftrightarrow> length kvs = 0"
    by (simp only: gatherTags_empty length_sort length_map)
  also have "\<dots> \<longleftrightarrow> kvs = []"
    by simp
  finally show ?thesis .
qed

lemma formatValues_append:
  "formatValues Sprintf_v c separator name tags rows vs =
   rows @ map (\<lambda>v. Join ((if Format c = ''csv'' then
                              (if name \<noteq> [] then [name] else []) @
                              (if tags \<noteq> [] then [Join tags '',''] else [])
                            else []) @ map (interfaceToString Sprintf_v) v) separator) vs"
  by (induction vs arbitrary: rows) (simp_all add: Let_def)

lemma formatSeries_append:
  "formatSeries Sprintf_v c separator rows i row =
   rows @ formatSeries Sprintf_v c separator [] i row"
  by (simp add: formatSeries_def Let_def formatValues_append)

lemma formatResults_loop_append:
  "formatResults_loop Sprintf_v c separator rows i ss =
   rows @ concat (map (\<lambda>(j, row). formatSeries Sprintf_v c separator [] j row)
                      (zip [i..<i + length ss] ss))"
proof (induction ss arbitrary: rows i)
  case Nil
  show ?case by simp
next
  case (Cons row rest)
  have "[i..<i + length (row # rest)] = i # [Suc i..<Suc i + length rest]"
    by (simp add: upt_rec)
  then show ?case
    using Cons.IH [of "formatSeries Sprintf_v c separator rows i row" "Suc i"]
      formatSeries_append [of Sprintf_v c separator rows i row]
    by simp
qed

lemma formatResults_blocks:
  "formatResults Sprintf_v c result separator =
   concat (map (\<lambda>(i, row). formatSeries Sprintf_v c separator [] i row)
               (zip [0..<length (Series result)] (Series result)))"
  using formatResults_loop_append [of Sprintf_v c separator "[]" 0 "Series result"]
  by (simp add: formatResults_def)

lemma formatSeries_column:
  assumes "Format c = ''column''"
  shows "formatSeries Sprintf_v c separator [] i row =
     (if i > 0 then [[]] else []) @
     (if Name row \<noteq> [] then
        [''name: '' @ Name row] @
        (if Tags row = [] then [Repeat ''-'' (length (''name: '' @ Name row))] else [])
      else []) @
     (if Tags row \<noteq> [] then [''tags: '' @ Join (gatherTags [] (Tags row)) '', ''] else []) @
     [Join (Columns row) separator] @
     (if Tags row \<noteq> [] then
        [Join (map (\<lambda>columnName. Repeat ''-'' (length columnName)) (Columns row)) separator]
      else []) @
     map (\<lambda>v. Join (map (interfaceToString Sprintf_v) v) separator) (Values row) @
     [[]]"
proof -
  have csv: "''column'' \<noteq> ''csv''" by simp
  show ?thesis
    using assms csv
    by (simp add: formatSeries_def Let_def formatValues_append gatherTags_Nil_iff
        cong: map_cong)
qed

lemma formatSeries_csv:
  assumes "Format c = ''csv''"
  shows "formatSeries Sprintf_v c separator [] i row =
     [Join ((if Name row \<noteq> [] then [''name''] else []) @
            (if Tags row \<noteq> [] then [''tags''] else []) @ Columns row) separator] @
     map (\<lambda>v. Join ((if Name row \<noteq> [] then [Name row] else []) @
                     (if Tags row \<noteq> [] then [Join (gatherTags [] (Tags row)) '',''] else []) @
                     map (interfaceToString Sprintf_v) v) separator) (Values row)"
proof -
  have csv: "''csv'' \<noteq> ''column''" by simp
  show ?thesis
    using assms csv
    by (simp add: formatSeries_def Let_def formatValues_append gatherTags_Nil_iff
        cong: map_cong)
qed





text \<open>
  C3. In column mode the rows of a result are the rows of its series, one after the
  other, and the rows of a series are these. With at least one tag: the name line if
  there is a name, the tags line, the header, the underline of the header (for every
  column as many dashes as its name is long, joined by the separator), the data rows
  and a blank line. With a name and no tag: the name line, a line of as many dashes as
  the name line is long, the header, the data rows and a blank line. With neither: the
  header, the data rows and a blank line, and no underline. Every series but the first
  is preceded by a blank line.
\<close>

theorem formatResults_column_underline:
  "Format c = ''column'' \<longrightarrow>
     formatResults Sprintf_v c result separator =
       concat (map (\<lambda>(i, row). formatSeries Sprintf_v c separator [] i row)
                   (zip [0..<length (Series result)] (Series result))) \<and>
     Repeat ''-'' n = replicate n (CHR ''-'') \<and>
     (Tags row \<noteq> [] \<longrightarrow>
        formatSeries Sprintf_v c separator [] i row =
          (if i > 0 then [[]] else []) @
          (if Name row \<noteq> [] then [''name: '' @ Name row] else []) @
          [''tags: '' @ Join (sort (map (\<lambda>(k, v). k @ ''='' @ v) (Tags row))) '', '',
           Join (Columns row) separator,
           Join (map (\<lambda>columnName. Repeat ''-'' (length columnName)) (Columns row)) separator] @
          map (\<lambda>v. Join (map (interfaceToString Sprintf_v) v) separator) (Values row) @
          [[]]) \<and>
     (Tags row = [] \<and> Name row \<noteq> [] \<longrightarrow>
        formatSeries Sprintf_v c separator [] i row =
          (if i > 0 then [[]] else []) @
          [''name: '' @ Name row,
           Repeat ''-'' (length (''name: '' @ Name row)),
           Join (Columns row) separator] @
          map (\<lambda>v. Join (map (interfaceToString Sprintf_v) v) separator) (Values row) @
          [[]]) \<and>
     (Tags row = [] \<and> Name row = [] \<longrightarrow>
        formatSeries Sprintf_v c separator [] i row =
          (if i > 0 then [[]] else []) @
          [Join (Columns row) separator] @
          map (\<lambda>v. Join (map (interfaceToString Sprintf_v) v) separator) (Values row) @
          [[]])"
proof
  assume col: "Format c = ''column''"
  have dash: "Repeat ''-'' n = replicate n (CHR ''-'')"
    by (induction n) (simp_all add: Repeat_def)
  note s = formatSeries_column [OF col, of Sprintf_v separator i row]
  have a: "Tags row \<noteq> [] \<longrightarrow>
        formatSeries Sprintf_v c separator [] i row =
          (if i > 0 then [[]] else []) @
          (if Name row \<noteq> [] then [''name: '' @ Name row] else []) @
          [''tags: '' @ Join (sort (map (\<lambda>(k, v). k @ ''='' @ v) (Tags row))) '', '',
           Join (Columns row) separator,
           Join (map (\<lambda>columnName. Repeat ''-'' (length columnName)) (Columns row)) separator] @
          map (\<lambda>v. Join (map (interfaceToString Sprintf_v) v) separator) (Values row) @
          [[]]"
    by (simp add: s gatherTags_empty)
  have b: "Tags row = [] \<and> Name row \<noteq> [] \<longrightarrow>
        formatSeries Sprintf_v c separator [] i row =
          (if i > 0 then [[]] else []) @
          [''name: '' @ Name row,
           Repeat ''-'' (length (''name: '' @ Name row)),
           Join (Columns row) separator] @
          map (\<lambda>v. Join (map (interfaceToString Sprintf_v) v) separator) (Values row) @
          [[]]"
    by (simp add: s)
  have d: "Tags row = [] \<and> Name row = [] \<longrightarrow>
        formatSeries Sprintf_v c separator [] i row =
          (if i > 0 then [[]] else []) @
          [Join (Columns row) separator] @
          map (\<lambda>v. Join (map (interfaceToString Sprintf_v) v) separator) (Values row) @
          [[]]"
    by (simp add: s)
  from formatResults_blocks [of Sprintf_v c result separator] dash a b d
  show "formatResults Sprintf_v c result separator =
       concat (map (\<lambda>(i, row). formatSeries Sprintf_v c separator [] i row)
                   (zip [0..<length (Series result)] (Series result))) \<and>
     Repeat ''-'' n = replicate n (CHR ''-'') \<and>
     (Tags row \<noteq> [] \<longrightarrow>
        formatSeries Sprintf_v c separator [] i row =
          (if i > 0 then [[]] else []) @
          (if Name row \<noteq> [] then [''name: '' @ Name row] else []) @
          [''tags: '' @ Join (sort (map (\<lambda>(k, v). k @ ''='' @ v) (Tags row))) '', '',
           Join (Columns row) separator,
           Join (map (\<lambda>columnName. Repeat ''-'' (length columnName)) (Columns row)) separator] @
          map (\<lambda>v. Join (map (interfaceToString Sprintf_v) v) separator) (Values row) @
          [[]]) \<and>
     (Tags row = [] \<and> Name row \<noteq> [] \<longrightarrow>
        formatSeries Sprintf_v c separator [] i row =
          (if i > 0 then [[]] else []) @
          [''name: '' @ Name row,
           Repeat ''-'' (length (''name: '' @ Name row)),
           Join (Columns row) separator] @
          map (\<lambda>v. Join (map (interfaceToString Sprintf_v) v) separator) (Values row) @
          [[]]) \<and>
     (Tags row = [] \<and> Name row = [] \<longrightarrow>
        formatSeries Sprintf_v c separator [] i row =
          (if i > 0 then [[]] else []) @
          [Join (Columns row) separator] @
          map (\<lambda>v. Join (map (interfaceToString Sprintf_v) v) separator) (Values row) @
          [[]])"
    by blast
qed

theorem formatResults_column_underline_witness:
  "Format \<lparr>Database = [], RetentionPolicy = [], Pretty = False, Format = ''column''\<rparr> = ''column'' \<and>
   formatResults (\<lambda>u::unit. []) \<lparr>Database = [], RetentionPolicy = [], Pretty = False, Format = ''column''\<rparr>
     \<lparr>Series = [\<lparr>Name = ''cpu'', Tags = [(''host'', ''a'')], Columns = [''time'', ''value''], Values = [[VNil, VBool True]]\<rparr>,
                \<lparr>Name = ''mem'', Tags = [], Columns = [''time''], Values = []\<rparr>,
                \<lparr>Name = [], Tags = [], Columns = [''n''], Values = []\<rparr>],
      Err = None\<rparr> ''|'' =
   [''name: cpu'', ''tags: host=a'', ''time|value'', ''----|-----'', ''|true'', [],
    [], ''name: mem'', ''---------'', ''time'', [],
    [], ''n'', []]"
proof -
  let ?c = "\<lparr>Database = [], RetentionPolicy = [], Pretty = False, Format = ''column''\<rparr>"
  let ?s0 = "\<lparr>Name = ''cpu'', Tags = [(''host'', ''a'')], Columns = [''time'', ''value''],
             Values = [[VNil, VBool True]]\<rparr> :: unit series"
  let ?s1 = "\<lparr>Name = ''mem'', Tags = [], Columns = [''time''], Values = []\<rparr> :: unit series"
  let ?s2 = "\<lparr>Name = [], Tags = [], Columns = [''n''], Values = []\<rparr> :: unit series"
  let ?r = "\<lparr>Series = [?s0, ?s1, ?s2], Err = None :: string option\<rparr>"
  have fc: "Format ?c = ''column''"
    by simp
  have z: "zip [0..<length (Series ?r)] (Series ?r) = [(0, ?s0), (Suc 0, ?s1), (Suc (Suc 0), ?s2)]"
    by (simp add: upt_rec)
  from formatResults_column_underline [of ?c "\<lambda>u::unit. []" ?r "''|''" 0 ?s0 0] fc
  have b0: "formatSeries (\<lambda>u::unit. []) ?c ''|'' [] 0 ?s0 =
      [''name: cpu'', ''tags: host=a'', ''time|value'', ''----|-----'', ''|true'', []]"
    and r: "formatResults (\<lambda>u::unit. []) ?c ?r ''|'' =
       concat (map (\<lambda>(i, row). formatSeries (\<lambda>u::unit. []) ?c ''|'' [] i row)
                   (zip [0..<length (Series ?r)] (Series ?r)))"
    by (simp_all add: Repeat_def interfaceToString_def)
  from formatResults_column_underline [of ?c "\<lambda>u::unit. []" ?r "''|''" 0 ?s1 "Suc 0"] fc
  have b1: "formatSeries (\<lambda>u::unit. []) ?c ''|'' [] (Suc 0) ?s1 = [[], ''name: mem'', ''---------'', ''time'', []]"
    by (simp add: Repeat_def)
  from formatResults_column_underline [of ?c "\<lambda>u::unit. []" ?r "''|''" 0 ?s2 "Suc (Suc 0)"] fc
  have b2: "formatSeries (\<lambda>u::unit. []) ?c ''|'' [] (Suc (Suc 0)) ?s2 = [[], ''n'', []]"
    by simp
  from r z b0 b1 b2 fc show ?thesis
    by simp
qed

text \<open>
  C4. In CSV mode the rows of a result are the rows of its series, one after the other,
  and a series with a name and at least one tag gives the header \<open>name\<close>, \<open>tags\<close>
  and the columns, then for every row of values the name, the sorted tags joined by
  commas and the converted values, each row joined by the separator. For the series
  \<open>cpu\<close> with the tag \<open>host=a\<close>, the columns \<open>time\<close> and \<open>value\<close> and the row
  0, 1 the rows are \<open>name,tags,time,value\<close> and \<open>cpu,host=a,0,1\<close> when the separator
  is a comma, and with the tab of \<^verbatim>\<open>writeCSV\<close> they split into those fields.
\<close>

theorem formatResults_csv_rows:
  "formatResults Sprintf_v c result separator =
     concat (map (\<lambda>(i, row). formatSeries Sprintf_v c separator [] i row)
                 (zip [0..<length (Series result)] (Series result))) \<and>
   (Format c = ''csv'' \<and> Name row \<noteq> [] \<and> Tags row \<noteq> [] \<longrightarrow>
      formatSeries Sprintf_v c separator [] i row =
        [Join ([''name'', ''tags''] @ Columns row) separator] @
        map (\<lambda>v. Join ([Name row, Join (sort (map (\<lambda>(k, v). k @ ''='' @ v) (Tags row))) '',''] @
                        map (interfaceToString Sprintf_v) v) separator)
            (Values row)) \<and>
   (Format c = ''csv'' \<longrightarrow>
      formatResults Sprintf_v c
        \<lparr>Series = [\<lparr>Name = ''cpu'', Tags = [(''host'', ''a'')], Columns = [''time'', ''value''],
                    Values = [[VInt 0, VInt 1]]\<rparr>], Err = err\<rparr> '','' =
        [''name,tags,time,value'', ''cpu,host=a,0,1''] \<and>
      map (\<lambda>r. Split r tab)
        (formatResults Sprintf_v c
           \<lparr>Series = [\<lparr>Name = ''cpu'', Tags = [(''host'', ''a'')], Columns = [''time'', ''value''],
                       Values = [[VInt 0, VInt 1]]\<rparr>], Err = err\<rparr> [tab]) =
        [[''name'', ''tags'', ''time'', ''value''], [''cpu'', ''host=a'', ''0'', ''1'']])"
proof -
  have FormatUint_0: "FormatUint 0 = ''0''" and FormatUint_1: "FormatUint (Suc 0) = ''1''"
    by (simp_all add: FormatUint_small digit_def)
  have a: "Format c = ''csv'' \<and> Name row \<noteq> [] \<and> Tags row \<noteq> [] \<longrightarrow>
      formatSeries Sprintf_v c separator [] i row =
        [Join ([''name'', ''tags''] @ Columns row) separator] @
        map (\<lambda>v. Join ([Name row, Join (sort (map (\<lambda>(k, v). k @ ''='' @ v) (Tags row))) '',''] @
                        map (interfaceToString Sprintf_v) v) separator)
            (Values row)"
    by (simp add: formatSeries_csv gatherTags_empty)
  have b: "formatResults Sprintf_v c
        \<lparr>Series = [\<lparr>Name = ''cpu'', Tags = [(''host'', ''a'')], Columns = [''time'', ''value''],
                    Values = [[VInt 0, VInt 1]]\<rparr>], Err = err\<rparr> sep =
        [Join [''name'', ''tags'', ''time'', ''value''] sep, Join [''cpu'', ''host=a'', ''0'', ''1''] sep]"
    if "Format c = ''csv''" for sep
    using that
    by (simp add: formatResults_def formatSeries_csv sort_Strings_def interfaceToString_def
        Sprintf_d_def FormatUint_0 FormatUint_1)
  have d: "map (\<lambda>r. Split r tab)
        [Join [''name'', ''tags'', ''time'', ''value''] [tab], Join [''cpu'', ''host=a'', ''0'', ''1''] [tab]] =
        [[''name'', ''tags'', ''time'', ''value''], [''cpu'', ''host=a'', ''0'', ''1'']]"
    by (simp add: Split_def tab_def)
  have e: "[Join [''name'', ''tags'', ''time'', ''value''] '','', Join [''cpu'', ''host=a'', ''0'', ''1''] '',''] =
        [''name,tags,time,value'', ''cpu,host=a,0,1'']"
    by simp
  have ex: "Format c = ''csv'' \<longrightarrow>
      formatResults Sprintf_v c
        \<lparr>Series = [\<lparr>Name = ''cpu'', Tags = [(''host'', ''a'')], Columns = [''time'', ''value''],
                    Values = [[VInt 0, VInt 1]]\<rparr>], Err = err\<rparr> '','' =
        [''name,tags,time,value'', ''cpu,host=a,0,1''] \<and>
      map (\<lambda>r. Split r tab)
        (formatResults Sprintf_v c
           \<lparr>Series = [\<lparr>Name = ''cpu'', Tags = [(''host'', ''a'')], Columns = [''time'', ''value''],
                       Values = [[VInt 0, VInt 1]]\<rparr>], Err = err\<rparr> [tab]) =
        [[''name'', ''tags'', ''time'', ''value''], [''cpu'', ''host=a'', ''0'', ''1'']]"
  proof
    assume csv: "Format c = ''csv''"
    show "formatResults Sprintf_v c
        \<lparr>Series = [\<lparr>Name = ''cpu'', Tags = [(''host'', ''a'')], Columns = [''time'', ''value''],
                    Values = [[VInt 0, VInt 1]]\<rparr>], Err = err\<rparr> '','' =
        [''name,tags,time,value'', ''cpu,host=a,0,1''] \<and>
      map (\<lambda>r. Split r tab)
        (formatResults Sprintf_v c
           \<lparr>Series = [\<lparr>Name = ''cpu'', Tags = [(''host'', ''a'')], Columns = [''time'', ''value''],
                       Values = [[VInt 0, VInt 1]]\<rparr>], Err = err\<rparr> [tab]) =
        [[''name'', ''tags'', ''time'', ''value''], [''cpu'', ''host=a'', ''0'', ''1'']]"
      unfolding b [OF csv] d by (simp only: e)
  qed
  from formatResults_blocks [of Sprintf_v c result separator] a ex
  show ?thesis
    by (intro conjI)
qed

theorem formatResults_csv_rows_witness:
  "Format \<lparr>Database = [], RetentionPolicy = [], Pretty = False, Format = ''csv''\<rparr> = ''csv'' \<and>
   Name \<lparr>Name = ''cpu'', Tags = [(''host'', ''a'')], Columns = [''time'', ''value''],
         Values = [[VInt 0, VInt 1 :: unit iface]]\<rparr> \<noteq> [] \<and>
   Tags \<lparr>Name = ''cpu'', Tags = [(''host'', ''a'')], Columns = [''time'', ''value''],
         Values = [[VInt 0, VInt 1 :: unit iface]]\<rparr> \<noteq> [] \<and>
   formatSeries (\<lambda>u::unit. []) \<lparr>Database = [], RetentionPolicy = [], Pretty = False, Format = ''csv''\<rparr>
     '','' [] 0
     \<lparr>Name = ''cpu'', Tags = [(''host'', ''a'')], Columns = [''time'', ''value''],
      Values = [[VInt 0, VInt 1]]\<rparr> =
     [''name,tags,time,value'', ''cpu,host=a,0,1''] \<and>
   formatResults (\<lambda>u::unit. []) \<lparr>Database = [], RetentionPolicy = [], Pretty = False, Format = ''csv''\<rparr>
     \<lparr>Series = [\<lparr>Name = ''cpu'', Tags = [(''host'', ''a'')], Columns = [''time'', ''value''],
                 Values = [[VInt 0, VInt 1]]\<rparr>], Err = None\<rparr> '','' =
     [''name,tags,time,value'', ''cpu,host=a,0,1'']"
proof -
  let ?c = "\<lparr>Database = [], RetentionPolicy = [], Pretty = False, Format = ''csv''\<rparr>"
  let ?s = "\<lparr>Name = ''cpu'', Tags = [(''host'', ''a'')], Columns = [''time'', ''value''],
      Values = [[VInt 0, VInt 1 :: unit iface]]\<rparr>"
  have fc: "Format ?c = ''csv''"
    by simp
  have n: "Name ?s \<noteq> []" and t: "Tags ?s \<noteq> []"
    by simp_all
  have i0: "interfaceToString (\<lambda>u::unit. []) (VInt 0) = ''0''"
    and i1: "interfaceToString (\<lambda>u::unit. []) (VInt 1) = ''1''"
    by (simp_all add: interfaceToString_def Sprintf_d_def FormatUint_small digit_def)
  note th = formatResults_csv_rows [where c = ?c and row = ?s and Sprintf_v = "\<lambda>u::unit. []"
      and separator = "'',''" and i = 0 and err = None]
  from th fc n t
  have "formatSeries (\<lambda>u::unit. []) ?c '','' [] 0 ?s =
        [Join ([''name'', ''tags''] @ Columns ?s) '',''] @
        map (\<lambda>v. Join ([Name ?s, Join (sort (map (\<lambda>(k, v). k @ ''='' @ v) (Tags ?s))) '',''] @
                        map (interfaceToString (\<lambda>u::unit. [])) v) '','')
            (Values ?s)"
    by blast
  then have 1: "formatSeries (\<lambda>u::unit. []) ?c '','' [] 0 ?s =
      [''name,tags,time,value'', ''cpu,host=a,0,1'']"
    by (simp add: i0 i1)
  from th fc
  have 2: "formatResults (\<lambda>u::unit. []) ?c \<lparr>Series = [?s], Err = None\<rparr> '','' =
     [''name,tags,time,value'', ''cpu,host=a,0,1'']"
    by blast
  from fc n t 1 2 show ?thesis
    by (intro conjI)
qed

text \<open>
  C6. In column mode a result of one series without name and without tags, with the
  columns \<open>time\<close> and \<open>value\<close> and the one row 0, 1, is formatted as three lines:
  \<open>time\<close>, tab, \<open>value\<close>; then 0, tab, 1; then a blank line.
\<close>

theorem formatResults_column_plain:
  "Format c = ''column'' \<longrightarrow>
     formatResults Sprintf_v c
       \<lparr>Series = [\<lparr>Name = [], Tags = [], Columns = [''time'', ''value''],
                   Values = [[VInt 0, VInt 1]]\<rparr>], Err = err\<rparr> [tab] =
       [''time'' @ [tab] @ ''value'', ''0'' @ [tab] @ ''1'', []] \<and>
     length (formatResults Sprintf_v c
       \<lparr>Series = [\<lparr>Name = [], Tags = [], Columns = [''time'', ''value''],
                   Values = [[VInt 0, VInt 1]]\<rparr>], Err = err\<rparr> [tab]) = 3"
proof
  assume col: "Format c = ''column''"
  have "formatResults Sprintf_v c
       \<lparr>Series = [\<lparr>Name = [], Tags = [], Columns = [''time'', ''value''],
                   Values = [[VInt 0, VInt 1]]\<rparr>], Err = err\<rparr> [tab] =
       [''time'' @ [tab] @ ''value'', ''0'' @ [tab] @ ''1'', []]"
    by (simp add: formatResults_def formatSeries_column [OF col] interfaceToString_def
        Sprintf_d_def FormatUint_small digit_def)
  then show "formatResults Sprintf_v c
       \<lparr>Series = [\<lparr>Name = [], Tags = [], Columns = [''time'', ''value''],
                   Values = [[VInt 0, VInt 1]]\<rparr>], Err = err\<rparr> [tab] =
       [''time'' @ [tab] @ ''value'', ''0'' @ [tab] @ ''1'', []] \<and>
     length (formatResults Sprintf_v c
       \<lparr>Series = [\<lparr>Name = [], Tags = [], Columns = [''time'', ''value''],
                   Values = [[VInt 0, VInt 1]]\<rparr>], Err = err\<rparr> [tab]) = 3"
    by simp
qed

theorem formatResults_column_plain_witness:
  "Format \<lparr>Database = ''db'', RetentionPolicy = [], Pretty = True, Format = ''column''\<rparr> = ''column'' \<and>
   formatResults (\<lambda>u::unit. []) \<lparr>Database = ''db'', RetentionPolicy = [], Pretty = True, Format = ''column''\<rparr>
       \<lparr>Series = [\<lparr>Name = [], Tags = [], Columns = [''time'', ''value''],
                   Values = [[VInt 0, VInt 1]]\<rparr>], Err = None\<rparr> [tab] =
       [''time'' @ [tab] @ ''value'', ''0'' @ [tab] @ ''1'', []]"
  using formatResults_column_plain [of "\<lparr>Database = ''db'', RetentionPolicy = [], Pretty = True, Format = ''column''\<rparr>"
      "\<lambda>u::unit. []" None]
  by simp

subsection \<open>Writing JSON\<close>

text \<open>
  C9. In JSON mode \<^verbatim>\<open>FormatResponse\<close> writes what \<^verbatim>\<open>writeJSON\<close> writes, and
  \<^verbatim>\<open>writeJSON\<close> serializes the response once: with \<^verbatim>\<open>MarshalIndent\<close>, an empty prefix
  and an indent of four spaces when \<^verbatim>\<open>Pretty\<close> is set, with \<^verbatim>\<open>Marshal\<close> otherwise. When
  the serialization succeeds the document and a newline are written; when it fails,
  the message \<^verbatim>\<open>Unable to parse json:\<close> with the error, and nothing else. In CSV and
  column mode the output does not depend on the serializer, whatever it does.
\<close>

theorem writeJSON_outcomes:
  "(Format c = ''json'' \<longrightarrow> FormatResponse lib c response = (writeJSON lib c response, [])) \<and>
   (Pretty c \<and> json_MarshalIndent lib response [] (replicate 4 (CHR '' '')) = Inr data \<longrightarrow>
      writeJSON lib c response = data @ [newline]) \<and>
   (\<not> Pretty c \<and> json_Marshal lib response = Inr data \<longrightarrow>
      writeJSON lib c response = data @ [newline]) \<and>
   (Pretty c \<and> json_MarshalIndent lib response [] (replicate 4 (CHR '' '')) = Inl err \<longrightarrow>
      writeJSON lib c response = ''Unable to parse json: '' @ err @ [newline]) \<and>
   (\<not> Pretty c \<and> json_Marshal lib response = Inl err \<longrightarrow>
      writeJSON lib c response = ''Unable to parse json: '' @ err @ [newline]) \<and>
   (Format c = ''csv'' \<or> Format c = ''column'' \<longrightarrow>
      FormatResponse (lib\<lparr>json_Marshal := marshal, json_MarshalIndent := marshalIndent\<rparr>) c response =
      FormatResponse lib c response)"
proof (intro conjI impI)
  have four: "replicate 4 (CHR '' '') = ''    ''"
    by (simp add: numeral_eq_Suc)
  assume "Format c = ''csv'' \<or> Format c = ''column''"
  then show "FormatResponse (lib\<lparr>json_Marshal := marshal, json_MarshalIndent := marshalIndent\<rparr>) c response =
      FormatResponse lib c response"
    by (auto simp: FormatResponse_def writeCSV_def writeColumns_def)
qed (simp_all add: FormatResponse_def writeJSON_def numeral_eq_Suc)

theorem writeJSON_outcomes_witness:
  "writeJSON
     \<lparr>json_Marshal = (\<lambda>r. Inl ''unsupported value''), json_MarshalIndent = (\<lambda>r p i. Inr (p @ i @ ''{}'')),
      csv_Write = (\<lambda>fs. Join fs '','' @ [newline]), tabwriter_Flush = (\<lambda>s. s), fmt_q = (\<lambda>s. s),
      fmt_v = (\<lambda>u::unit. [])\<rparr>
     \<lparr>Database = [], RetentionPolicy = [], Pretty = True, Format = ''json''\<rparr>
     \<lparr>Results = [], RespErr = None\<rparr> = ''    {}'' @ [newline] \<and>
   writeJSON
     \<lparr>json_Marshal = (\<lambda>r. Inl ''unsupported value''), json_MarshalIndent = (\<lambda>r p i. Inr (p @ i @ ''{}'')),
      csv_Write = (\<lambda>fs. Join fs '','' @ [newline]), tabwriter_Flush = (\<lambda>s. s), fmt_q = (\<lambda>s. s),
      fmt_v = (\<lambda>u::unit. [])\<rparr>
     \<lparr>Database = [], RetentionPolicy = [], Pretty = False, Format = ''json''\<rparr>
     \<lparr>Results = [], RespErr = None\<rparr> = ''Unable to parse json: unsupported value'' @ [newline] \<and>
   FormatResponse
     \<lparr>json_Marshal = (\<lambda>r. Inl ''unsupported value''), json_MarshalIndent = (\<lambda>r p i. Inr (p @ i @ ''{}'')),
      csv_Write = (\<lambda>fs. Join fs '','' @ [newline]), tabwriter_Flush = (\<lambda>s. s), fmt_q = (\<lambda>s. s),
      fmt_v = (\<lambda>u::unit. [])\<rparr>
     \<lparr>Database = [], RetentionPolicy = [], Pretty = False, Format = ''json''\<rparr>
     \<lparr>Results = [], RespErr = None\<rparr> = (''Unable to parse json: unsupported value'' @ [newline], []) \<and>
   FormatResponse
     \<lparr>json_Marshal = (\<lambda>r. Inr ''{}''), json_MarshalIndent = (\<lambda>r p i. Inl ''unsupported value''),
      csv_Write = (\<lambda>fs. Join fs '','' @ [newline]), tabwriter_Flush = (\<lambda>s. s), fmt_q = (\<lambda>s. s),
      fmt_v = (\<lambda>u::unit. [])\<rparr>
     \<lparr>Database = [], RetentionPolicy = [], Pretty = False, Format = ''csv''\<rparr>
     \<lparr>Results = [], RespErr = None\<rparr> =
   FormatResponse
     \<lparr>json_Marshal = (\<lambda>r. Inl ''unsupported value''), json_MarshalIndent = (\<lambda>r p i. Inr (p @ i @ ''{}'')),
      csv_Write = (\<lambda>fs. Join fs '','' @ [newline]), tabwriter_Flush = (\<lambda>s. s), fmt_q = (\<lambda>s. s),
      fmt_v = (\<lambda>u::unit. [])\<rparr>
     \<lparr>Database = [], RetentionPolicy = [], Pretty = False, Format = ''csv''\<rparr>
     \<lparr>Results = [], RespErr = None\<rparr>"
proof -
  let ?lib = "\<lparr>json_Marshal = (\<lambda>r. Inl ''unsupported value''), json_MarshalIndent = (\<lambda>r p i. Inr (p @ i @ ''{}'')),
      csv_Write = (\<lambda>fs. Join fs '','' @ [newline]), tabwriter_Flush = (\<lambda>s. s), fmt_q = (\<lambda>s. s),
      fmt_v = (\<lambda>u::unit. [])\<rparr>"
  let ?r = "\<lparr>Results = [], RespErr = None\<rparr> :: unit response"
  let ?pretty = "\<lparr>Database = [], RetentionPolicy = [], Pretty = True, Format = ''json''\<rparr>"
  let ?plain = "\<lparr>Database = [], RetentionPolicy = [], Pretty = False, Format = ''json''\<rparr>"
  let ?csv = "\<lparr>Database = [], RetentionPolicy = [], Pretty = False, Format = ''csv''\<rparr>"
  from writeJSON_outcomes [where lib = ?lib and c = ?pretty and response = ?r and data = "''    {}''"]
  have 1: "writeJSON ?lib ?pretty ?r = ''    {}'' @ [newline]"
    by (simp add: numeral_eq_Suc)
  from writeJSON_outcomes [where lib = ?lib and c = ?plain and response = ?r and err = "''unsupported value''"]
  have 2: "writeJSON ?lib ?plain ?r = ''Unable to parse json: unsupported value'' @ [newline]"
    and 3: "FormatResponse ?lib ?plain ?r = (''Unable to parse json: unsupported value'' @ [newline], [])"
    by simp_all
  from writeJSON_outcomes [where lib = ?lib and c = ?csv and response = ?r
      and marshal = "\<lambda>r. Inr ''{}''" and marshalIndent = "\<lambda>r p i. Inl ''unsupported value''"]
  have 4: "FormatResponse (?lib\<lparr>json_Marshal := \<lambda>r. Inr ''{}'',
      json_MarshalIndent := \<lambda>r p i. Inl ''unsupported value''\<rparr>) ?csv ?r = FormatResponse ?lib ?csv ?r"
    by simp
  from 1 2 3 4 show ?thesis
    by simp
qed

end
